theory Spec2Isabelle
  imports Complex_Main
begin

section \<open>The input-hook library, as far as the two scripts use it\<close>

text \<open>
  Both scripts are callbacks registered with the mouse listener of the pynput library.
  The library is not part of the repository; only the parts of its interface that the
  scripts touch are modelled: the button enumeration, the exceptions a call may raise,
  and the three kinds of call the replay script makes.
\<close>

text \<open>
  \<^verbatim>\<open>mouse.Button\<close>. The enumeration depends on the backend: every backend has
  \<^verbatim>\<open>unknown\<close>, \<^verbatim>\<open>left\<close>, \<^verbatim>\<open>middle\<close> and \<^verbatim>\<open>right\<close>; the Windows backend adds \<^verbatim>\<open>x1\<close> and
  \<^verbatim>\<open>x2\<close>, the member \<^verbatim>\<open>mouse.py\<close> names; the Linux backend adds the four scroll
  directions and \<^verbatim>\<open>button8\<close> to \<^verbatim>\<open>button30\<close>. The type holds the members of all of them,
  so that a handler is modelled for every button any backend can hand it.
\<close>

datatype button =
    Button_unknown | Button_left | Button_middle | Button_right
  | Button_x1 | Button_x2
  | Button_scroll_up | Button_scroll_down | Button_scroll_left | Button_scroll_right
  | Button_button8 | Button_button9 | Button_button10 | Button_button11
  | Button_button12 | Button_button13 | Button_button14 | Button_button15
  | Button_button16 | Button_button17 | Button_button18 | Button_button19
  | Button_button20 | Button_button21 | Button_button22 | Button_button23
  | Button_button24 | Button_button25 | Button_button26 | Button_button27
  | Button_button28 | Button_button29 | Button_button30

text \<open>
  Exceptions. \<^verbatim>\<open>KeyboardInterrupt\<close> is the only class the source names; every other
  exception is carried by the name of its class.
\<close>

datatype exn = KeyboardInterrupt | Other_exception string

text \<open>
  The argument of \<^verbatim>\<open>time.sleep\<close>, kept as the expression the source writes, in seconds:
  a decimal literal, or \<^verbatim>\<open>random.uniform(a, b)\<close> of two decimal literals. The literals are
  held as the exact rationals they denote.
\<close>

datatype seconds = Literal rat | Uniform rat rat

text \<open>
  A call into the outside world: \<^verbatim>\<open>keyboard.Controller().press(k)\<close>,
  \<^verbatim>\<open>keyboard.Controller().release(k)\<close> and \<^verbatim>\<open>time.sleep(d)\<close>.
\<close>

datatype call = Key_press char | Key_release char | Sleep seconds

text \<open>
  \<^verbatim>\<open>random.uniform(a, b)\<close> is documented to return \<^verbatim>\<open>a + (b - a) * random()\<close>, where
  \<^verbatim>\<open>random()\<close> lies in the half-open interval from 0 to 1. The third argument stands for
  the value of \<^verbatim>\<open>random()\<close> in that draw. The arithmetic is exact: the rounding of the
  floating-point operations is not modelled.
\<close>

definition uniform :: "rat \<Rightarrow> rat \<Rightarrow> rat \<Rightarrow> rat" where
  "uniform a b u = a + (b - a) * u"

text \<open>
  The number of seconds a \<^verbatim>\<open>time.sleep\<close> is asked to wait, given the value \<open>u\<close> of
  \<^verbatim>\<open>random()\<close> for its argument (a literal draws nothing).
\<close>

fun duration :: "seconds \<Rightarrow> rat \<Rightarrow> rat" where
  "duration (Literal d) u = d"
| "duration (Uniform a b) u = uniform a b u"

text \<open>
  The platform decides whether a call raises. It is a parameter of the model: given the
  calls already performed and the call attempted, it answers with the exception raised,
  or with \<open>None\<close> when the call goes through.
\<close>

type_synonym world = "call list \<Rightarrow> call \<Rightarrow> exn option"

definition never_raises :: world where
  "never_raises = (\<lambda>done c. None)"

text \<open>What a Python function call yields: a value, or an exception that propagates.\<close>

datatype pyval = PyNone | PyBool bool

datatype outcome = Returned pyval | Raised exn

section \<open>\<^verbatim>\<open>mouse.py\<close>: trigger and replay\<close>

text \<open>
  \<^verbatim>\<open>button_to_trigger = mouse.Button.x2\<close>. The other module-level constant,
  \<^verbatim>\<open>stop_key = keyboard.Key.esc\<close>, is assigned and never read, and is left out.
\<close>

definition button_to_trigger :: button where
  "button_to_trigger = Button_x2"

text \<open>
  The state the callback can see and change: the module-level flag
  \<^verbatim>\<open>is_script_running\<close> (initially \<open>False\<close>), and the calls performed so far, oldest
  first.
\<close>

record state =
  is_script_running :: bool
  performed :: "call list"

definition initial_state :: state where
  "initial_state = \<lparr>is_script_running = False, performed = []\<rparr>"

text \<open>
  One statement of the callback's body: it runs in a state and either completes, giving
  the next state, or raises, leaving the state as it was when the exception occurred.
\<close>

type_synonym statement = "state \<Rightarrow> exn option \<times> state"

definition assign_is_script_running :: "bool \<Rightarrow> statement" where
  "assign_is_script_running b s = (None, s\<lparr>is_script_running := b\<rparr>)"

definition perform :: "world \<Rightarrow> call \<Rightarrow> statement" where
  "perform w c s =
     (case w (performed s) c of
        Some e \<Rightarrow> (Some e, s)
      | None \<Rightarrow> (None, s\<lparr>performed := performed s @ [c]\<rparr>))"

text \<open>Statements in sequence: the first exception ends the block.\<close>

fun run :: "statement list \<Rightarrow> statement" where
  "run [] s = (None, s)"
| "run (c # cs) s =
     (case c s of
        (None, s') \<Rightarrow> run cs s'
      | (Some e, s') \<Rightarrow> (Some e, s'))"

text \<open>
  The body of the \<^verbatim>\<open>if\<close> in \<^verbatim>\<open>on_click\<close>, lines 13 to 34 of \<^verbatim>\<open>mouse.py\<close>, one entry per
  statement.
\<close>

definition script :: "world \<Rightarrow> statement list" where
  "script w =
     [assign_is_script_running True,
      perform w (Key_press (CHR ''v'')),
      perform w (Sleep (Uniform (96 / 1000) (1 / 10))),
      perform w (Key_release (CHR ''v'')),
      perform w (Sleep (Literal (5 / 1000))),
      perform w (Key_press (CHR ''2'')),
      perform w (Key_release (CHR ''2'')),
      perform w (Key_press (CHR ''1'')),
      perform w (Sleep (Uniform (96 / 1000) (1 / 10))),
      perform w (Key_release (CHR ''1'')),
      assign_is_script_running False]"

text \<open>
  \<^verbatim>\<open>on_click(x, y, button, pressed)\<close> of \<^verbatim>\<open>mouse.py\<close>. The function has no
  \<^verbatim>\<open>return\<close> statement, so whenever it returns it returns \<^verbatim>\<open>None\<close>.
\<close>

definition mouse_on_click :: "world \<Rightarrow> int \<Rightarrow> int \<Rightarrow> button \<Rightarrow> bool \<Rightarrow> state \<Rightarrow> outcome \<times> state" where
  "mouse_on_click w x y button pressed s =
     (if button = button_to_trigger \<and> pressed \<and> \<not> is_script_running s then
        (case run (script w) s of
           (None, s') \<Rightarrow> (Returned PyNone, s')
         | (Some e, s') \<Rightarrow> (Raised e, s'))
      else (Returned PyNone, s))"

section \<open>\<^verbatim>\<open>mouseid.py\<close>: button identifier\<close>

text \<open>
  \<^verbatim>\<open>str(button)\<close>, which the f-string uses for \<^verbatim>\<open>{button}\<close>: the name of the
  enumeration class, a dot, and the name of the member.
\<close>

fun str_button :: "button \<Rightarrow> string" where
  "str_button Button_unknown = ''Button.unknown''"
| "str_button Button_left = ''Button.left''"
| "str_button Button_middle = ''Button.middle''"
| "str_button Button_right = ''Button.right''"
| "str_button Button_x1 = ''Button.x1''"
| "str_button Button_x2 = ''Button.x2''"
| "str_button Button_scroll_up = ''Button.scroll_up''"
| "str_button Button_scroll_down = ''Button.scroll_down''"
| "str_button Button_scroll_left = ''Button.scroll_left''"
| "str_button Button_scroll_right = ''Button.scroll_right''"
| "str_button Button_button8 = ''Button.button8''"
| "str_button Button_button9 = ''Button.button9''"
| "str_button Button_button10 = ''Button.button10''"
| "str_button Button_button11 = ''Button.button11''"
| "str_button Button_button12 = ''Button.button12''"
| "str_button Button_button13 = ''Button.button13''"
| "str_button Button_button14 = ''Button.button14''"
| "str_button Button_button15 = ''Button.button15''"
| "str_button Button_button16 = ''Button.button16''"
| "str_button Button_button17 = ''Button.button17''"
| "str_button Button_button18 = ''Button.button18''"
| "str_button Button_button19 = ''Button.button19''"
| "str_button Button_button20 = ''Button.button20''"
| "str_button Button_button21 = ''Button.button21''"
| "str_button Button_button22 = ''Button.button22''"
| "str_button Button_button23 = ''Button.button23''"
| "str_button Button_button24 = ''Button.button24''"
| "str_button Button_button25 = ''Button.button25''"
| "str_button Button_button26 = ''Button.button26''"
| "str_button Button_button27 = ''Button.button27''"
| "str_button Button_button28 = ''Button.button28''"
| "str_button Button_button29 = ''Button.button29''"
| "str_button Button_button30 = ''Button.button30''"

text \<open>
  The f-string of line 6:
  \<^verbatim>\<open>f"Button {button} {'pressed' if pressed else 'released'}"\<close>.
\<close>

definition button_message :: "button \<Rightarrow> bool \<Rightarrow> string" where
  "button_message button pressed =
     ''Button '' @ str_button button @ '' '' @ (if pressed then ''pressed'' else ''released'')"

text \<open>
  \<^verbatim>\<open>print\<close> writes to the standard output, and the write can fail (a closed or broken
  stream). As for the calls of the replay script, the platform is a parameter: given the
  lines already printed and the line to print, it answers with the exception raised, or
  with \<open>None\<close> when the line is written.
\<close>

type_synonym stdout = "string list \<Rightarrow> string \<Rightarrow> exn option"

definition stdout_never_fails :: stdout where
  "stdout_never_fails = (\<lambda>printed line. None)"

text \<open>
  \<^verbatim>\<open>on_click(x, y, button, pressed)\<close> of \<^verbatim>\<open>mouseid.py\<close>. Its state is the console: the
  lines printed so far, oldest first. \<^verbatim>\<open>print\<close> adds one line, or raises and adds none.
\<close>

definition mouseid_on_click :: "stdout \<Rightarrow> int \<Rightarrow> int \<Rightarrow> button \<Rightarrow> bool \<Rightarrow> string list \<Rightarrow> outcome \<times> string list" where
  "mouseid_on_click out x y button pressed console =
     (case out console (button_message button pressed) of
        Some e \<Rightarrow> (Raised e, console)
      | None \<Rightarrow> (Returned PyNone, console @ [button_message button pressed]))"

section \<open>The listener and the two main programs\<close>

text \<open>
  The listener belongs to the library. Its one thread hands the callback one event after
  the other, synchronously, each of the form \<open>(x, y, button, pressed)\<close>. It goes on to
  the next event unless the callback returned \<^verbatim>\<open>False\<close>, which stops it, or raised, which
  ends it with that exception.
\<close>

type_synonym event = "int \<times> int \<times> button \<times> bool"

datatype listening = All_delivered | Stopped_by_callback | Callback_raised exn

fun deliver :: "(int \<Rightarrow> int \<Rightarrow> button \<Rightarrow> bool \<Rightarrow> 's \<Rightarrow> outcome \<times> 's) \<Rightarrow> event list \<Rightarrow> 's \<Rightarrow> listening \<times> 's" where
  "deliver on_click [] s = (All_delivered, s)"
| "deliver on_click ((x, y, button, pressed) # evs) s =
     (case on_click x y button pressed s of
        (Returned v, s') \<Rightarrow>
          (if v = PyBool False then (Stopped_by_callback, s') else deliver on_click evs s')
      | (Raised e, s') \<Rightarrow> (Callback_raised e, s'))"

text \<open>
  How a script ends: its last statement is reached (nothing is written to the error
  stream and the exit status is the default, 0), or an exception reaches the top level
  (the interpreter prints the traceback and the exit status is not 0).
\<close>

datatype ending = Normal_exit | Uncaught exn

text \<open>
  The last lines of each script, as a function of what the blocking call
  \<^verbatim>\<open>listener.join()\<close> does: \<open>None\<close> when it returns, \<open>Some e\<close> when \<open>e\<close> is raised out of
  it. Leaving the \<^verbatim>\<open>with\<close> block stops the listener and lets an exception pass.
  \<^verbatim>\<open>mouse.py\<close> wraps the call in \<^verbatim>\<open>try: ... except KeyboardInterrupt: pass\<close>;
  \<^verbatim>\<open>mouseid.py\<close> calls it bare.
\<close>

definition mouse_main :: "exn option \<Rightarrow> ending" where
  "mouse_main join =
     (case join of
        None \<Rightarrow> Normal_exit
      | Some e \<Rightarrow> (if e = KeyboardInterrupt then Normal_exit else Uncaught e))"

definition mouseid_main :: "exn option \<Rightarrow> ending" where
  "mouseid_main join =
     (case join of
        None \<Rightarrow> Normal_exit
      | Some e \<Rightarrow> Uncaught e)"

section \<open>Observations on the calls performed\<close>

text \<open>The synthetic key events among the calls, in order.\<close>

fun is_key_event :: "call \<Rightarrow> bool" where
  "is_key_event (Key_press k) = True"
| "is_key_event (Key_release k) = True"
| "is_key_event (Sleep d) = False"

definition key_events :: "call list \<Rightarrow> call list" where
  "key_events cs = filter is_key_event cs"

text \<open>
  The keys the operating system regards as held after a run of calls: pressed and not
  released since.
\<close>

fun key_step :: "char list \<Rightarrow> call \<Rightarrow> char list" where
  "key_step held (Key_press k) = removeAll k held @ [k]"
| "key_step held (Key_release k) = removeAll k held"
| "key_step held (Sleep d) = held"

definition held_keys :: "call list \<Rightarrow> char list" where
  "held_keys cs = foldl key_step [] cs"

text \<open>The nine calls of one complete replay.\<close>

definition replay_calls :: "call list" where
  "replay_calls =
     [Key_press (CHR ''v''), Sleep (Uniform (96 / 1000) (1 / 10)), Key_release (CHR ''v''),
      Sleep (Literal (5 / 1000)),
      Key_press (CHR ''2''), Key_release (CHR ''2''),
      Key_press (CHR ''1''), Sleep (Uniform (96 / 1000) (1 / 10)), Key_release (CHR ''1'')]"

section \<open>Shared facts about the replay\<close>

lemma run_script_completes:
  assumes "run (script w) s = (None, s')"
  shows "s' = s\<lparr>is_script_running := False, performed := performed s @ replay_calls\<rparr>"
  using assms
  by (auto simp add: script_def perform_def assign_is_script_running_def replay_calls_def
      split: option.splits)

lemma run_script_never_raises:
  "run (script never_raises) s =
     (None, s\<lparr>is_script_running := False, performed := performed s @ replay_calls\<rparr>)"
  by (simp add: script_def perform_def assign_is_script_running_def replay_calls_def
      never_raises_def)

lemma mouse_on_click_ignores:
  assumes "\<not> (button = button_to_trigger \<and> pressed \<and> \<not> is_script_running s)"
  shows "mouse_on_click w x y button pressed s = (Returned PyNone, s)"
  using assms by (auto simp add: mouse_on_click_def)

lemma script_shape:
  "script w =
     assign_is_script_running True # map (perform w) replay_calls @ [assign_is_script_running False]"
  by (simp add: script_def replay_calls_def)

lemma length_replay_calls: "length replay_calls = 9"
  by (simp add: replay_calls_def)

lemma perform_through:
  "w (performed s) c = None \<Longrightarrow> perform w c s = (None, s\<lparr>performed := performed s @ [c]\<rparr>)"
  by (simp add: perform_def)

lemma perform_raises:
  "w (performed s) c = Some e \<Longrightarrow> perform w c s = (Some e, s)"
  by (simp add: perform_def)

lemma run_performs_flag:
  "run (map (perform w) cs) s = (r, s') \<Longrightarrow> is_script_running s' = is_script_running s"
proof (induction cs arbitrary: s)
  case Nil
  then show ?case by simp
next
  case (Cons c cs)
  show ?case
  proof (cases "w (performed s) c")
    case None
    with Cons.prems have "run (map (perform w) cs) (s\<lparr>performed := performed s @ [c]\<rparr>) = (r, s')"
      by (simp add: perform_through)
    from Cons.IH [OF this] show ?thesis by simp
  next
    case (Some e)
    with Cons.prems show ?thesis by (simp add: perform_raises)
  qed
qed

lemma run_performs_raised:
  "run (map (perform w) cs) s = (Some e, s') \<Longrightarrow>
     \<exists>n<length cs. s' = s\<lparr>performed := performed s @ take n cs\<rparr> \<and> w (performed s') (cs ! n) = Some e"
proof (induction cs arbitrary: s)
  case Nil
  then show ?case by simp
next
  case (Cons c cs)
  show ?case
  proof (cases "w (performed s) c")
    case None
    with Cons.prems have "run (map (perform w) cs) (s\<lparr>performed := performed s @ [c]\<rparr>) = (Some e, s')"
      by (simp add: perform_through)
    from Cons.IH [OF this] obtain n where n: "n < length cs"
      "s' = s\<lparr>performed := performed s @ c # take n cs\<rparr>" "w (performed s') (cs ! n) = Some e"
      by auto
    then have "Suc n < length (c # cs) \<and> s' = s\<lparr>performed := performed s @ take (Suc n) (c # cs)\<rparr>
        \<and> w (performed s') ((c # cs) ! Suc n) = Some e"
      by simp
    then show ?thesis by blast
  next
    case (Some e')
    with Cons.prems have "s' = s" "e' = e" by (simp_all add: perform_raises)
    with Some have "0 < length (c # cs) \<and> s' = s\<lparr>performed := performed s @ take 0 (c # cs)\<rparr>
        \<and> w (performed s') ((c # cs) ! 0) = Some e"
      by simp
    then show ?thesis by blast
  qed
qed

lemma run_append:
  "run (as @ bs) s = (case run as s of (None, s') \<Rightarrow> run bs s' | (Some e, s') \<Rightarrow> (Some e, s'))"
  by (induction as arbitrary: s) (auto split: prod.splits option.splits)

lemma run_script_prefix:
  assumes "0 < k" "k < length (script w)"
  shows "run (take k (script w)) s = run (map (perform w) (take (k - 1) replay_calls)) (s\<lparr>is_script_running := True\<rparr>)"
proof -
  from assms obtain j where k: "k = Suc j" and j: "j \<le> length replay_calls"
    by (cases k) (auto simp: script_shape)
  show ?thesis
    using j by (simp add: k script_shape assign_is_script_running_def take_map)
qed

lemma run_script_raised:
  assumes "run (script w) s = (Some e, s')"
  shows "\<exists>n<9. s' = s\<lparr>is_script_running := True, performed := performed s @ take n replay_calls\<rparr>
           \<and> w (performed s') (replay_calls ! n) = Some e"
proof -
  let ?t = "s\<lparr>is_script_running := True\<rparr>"
  from assms have r: "run (map (perform w) replay_calls @ [assign_is_script_running False]) ?t = (Some e, s')"
    by (simp add: script_shape assign_is_script_running_def)
  have "run (map (perform w) replay_calls) ?t = (Some e, s')"
  proof (cases "run (map (perform w) replay_calls) ?t")
    case (Pair r' t')
    with r show ?thesis
      by (cases r') (simp_all add: run_append assign_is_script_running_def)
  qed
  from run_performs_raised [OF this] show ?thesis
    by (auto simp: length_replay_calls)
qed

lemma held_keys_replay_prefix:
  "n < 9 \<Longrightarrow> held_keys (take n replay_calls) =
     (if n = 1 \<or> n = 2 then ''v'' else if n = 5 then ''2'' else if n = 7 \<or> n = 8 then ''1'' else [])"
proof -
  assume "n < 9"
  then consider "n = 0" | "n = 1" | "n = 2" | "n = 3" | "n = 4" | "n = 5" | "n = 6" | "n = 7" | "n = 8"
    by linarith
  then show ?thesis
    by cases (simp_all add: held_keys_def replay_calls_def)
qed

lemma key_events_replay_calls:
  "key_events replay_calls =
     [Key_press (CHR ''v''), Key_release (CHR ''v''), Key_press (CHR ''2''), Key_release (CHR ''2''),
      Key_press (CHR ''1''), Key_release (CHR ''1'')]"
  by (simp add: key_events_def replay_calls_def)

lemma flag_reset_idle:
  "\<not> is_script_running s \<Longrightarrow>
     s\<lparr>is_script_running := False, performed := p\<rparr> = s\<lparr>performed := p\<rparr>"
  by (cases s) simp

lemma mouse_on_click_returned:
  assumes "\<not> is_script_running s"
    and "mouse_on_click w x y button_to_trigger True s = (Returned v, s')"
  shows "v = PyNone \<and> s' = s\<lparr>performed := performed s @ replay_calls\<rparr>"
proof (cases "run (script w) s")
  case (Pair r t)
  show ?thesis
  proof (cases r)
    case None
    with Pair have "t = s\<lparr>is_script_running := False, performed := performed s @ replay_calls\<rparr>"
      by (simp add: run_script_completes)
    with assms Pair None show ?thesis
      by (auto simp add: mouse_on_click_def flag_reset_idle)
  next
    case (Some e)
    with assms Pair show ?thesis
      by (simp add: mouse_on_click_def)
  qed
qed

lemma mouse_on_click_never_raises:
  assumes "\<not> is_script_running s"
  shows "mouse_on_click never_raises x y button_to_trigger True s =
           (Returned PyNone, s\<lparr>performed := performed s @ replay_calls\<rparr>)"
  using assms by (simp add: mouse_on_click_def run_script_never_raises flag_reset_idle)

lemma mouse_on_click_raised:
  assumes "mouse_on_click w x y button pressed s = (Raised e, s')"
  shows "button = button_to_trigger \<and> pressed \<and> \<not> is_script_running s \<and> run (script w) s = (Some e, s')"
  using assms by (auto simp: mouse_on_click_def split: if_splits prod.splits option.splits)

section \<open>The claims\<close>

subsection \<open>C1: the replay emits exactly six key events\<close>

text \<open>
  C1. A press of the trigger button while \<^verbatim>\<open>is_script_running\<close> is false makes the handler
  emit the key events press v, release v, press 2, release 2, press 1, release 1, in this
  order, and no other key event. When no call raises, the handler returns with exactly
  the nine calls of the replay added; and on any platform, an invocation that returns
  has added calls whose key events are exactly these six.
\<close>

theorem replay_key_event_sequence:
  assumes "\<not> is_script_running s"
  shows "mouse_on_click never_raises x y button_to_trigger True s =
           (Returned PyNone, s\<lparr>performed := performed s @ replay_calls\<rparr>)
       \<and> key_events replay_calls =
           [Key_press (CHR ''v''), Key_release (CHR ''v''),
            Key_press (CHR ''2''), Key_release (CHR ''2''),
            Key_press (CHR ''1''), Key_release (CHR ''1'')]
       \<and> (\<forall>v s'. mouse_on_click w x y button_to_trigger True s = (Returned v, s') \<longrightarrow>
            key_events (drop (length (performed s)) (performed s')) =
              [Key_press (CHR ''v''), Key_release (CHR ''v''),
               Key_press (CHR ''2''), Key_release (CHR ''2''),
               Key_press (CHR ''1''), Key_release (CHR ''1'')])"
proof (intro conjI allI impI)
  show "mouse_on_click never_raises x y button_to_trigger True s =
          (Returned PyNone, s\<lparr>performed := performed s @ replay_calls\<rparr>)"
    using assms by (rule mouse_on_click_never_raises)
next
  show "key_events replay_calls =
     [Key_press (CHR ''v''), Key_release (CHR ''v''), Key_press (CHR ''2''), Key_release (CHR ''2''),
      Key_press (CHR ''1''), Key_release (CHR ''1'')]"
    by (rule key_events_replay_calls)
next
  fix v s'
  assume "mouse_on_click w x y button_to_trigger True s = (Returned v, s')"
  with assms have "s' = s\<lparr>performed := performed s @ replay_calls\<rparr>"
    using mouse_on_click_returned by blast
  then show "key_events (drop (length (performed s)) (performed s')) =
     [Key_press (CHR ''v''), Key_release (CHR ''v''), Key_press (CHR ''2''), Key_release (CHR ''2''),
      Key_press (CHR ''1''), Key_release (CHR ''1'')]"
    by (simp add: key_events_replay_calls)
qed

theorem replay_key_event_sequence_witness:
  "mouse_on_click never_raises 640 480 Button_x2 True initial_state =
     (Returned PyNone, \<lparr>is_script_running = False, performed = replay_calls\<rparr>)
   \<and> key_events (performed (snd (mouse_on_click never_raises 640 480 Button_x2 True initial_state))) =
       [Key_press (CHR ''v''), Key_release (CHR ''v''),
        Key_press (CHR ''2''), Key_release (CHR ''2''),
        Key_press (CHR ''1''), Key_release (CHR ''1'')]"
  using replay_key_event_sequence [of initial_state 640 480 never_raises]
  by (simp add: initial_state_def button_to_trigger_def)

subsection \<open>C2: every other event is ignored\<close>

text \<open>
  C2. An event that is not a press of the trigger button with \<^verbatim>\<open>is_script_running\<close> false
  (a trigger press while the flag is true, any event of another button, a release of the
  trigger button) leaves the state as it was: the handler returns \<^verbatim>\<open>None\<close>, performs no
  call and so emits no key event.
\<close>

theorem other_events_no_op:
  assumes "\<not> (button = button_to_trigger \<and> pressed \<and> \<not> is_script_running s)"
  shows "mouse_on_click w x y button pressed s = (Returned PyNone, s)
       \<and> key_events (drop (length (performed s))
            (performed (snd (mouse_on_click w x y button pressed s)))) = []"
proof -
  have "mouse_on_click w x y button pressed s = (Returned PyNone, s)"
    using assms by (rule mouse_on_click_ignores)
  then show ?thesis by (simp add: key_events_def)
qed

theorem other_events_no_op_witness:
  "mouse_on_click never_raises 1 2 Button_x2 True \<lparr>is_script_running = True, performed = []\<rparr> =
     (Returned PyNone, \<lparr>is_script_running = True, performed = []\<rparr>)
   \<and> mouse_on_click never_raises 1 2 Button_left True initial_state = (Returned PyNone, initial_state)
   \<and> mouse_on_click never_raises 1 2 Button_left False initial_state = (Returned PyNone, initial_state)
   \<and> mouse_on_click never_raises 1 2 Button_x2 False initial_state = (Returned PyNone, initial_state)"
  using other_events_no_op [of Button_x2 True "\<lparr>is_script_running = True, performed = []\<rparr>" never_raises 1 2]
    other_events_no_op [of Button_left True initial_state never_raises 1 2]
    other_events_no_op [of Button_left False initial_state never_raises 1 2]
    other_events_no_op [of Button_x2 False initial_state never_raises 1 2]
  by (simp add: button_to_trigger_def)

subsection \<open>C3: the life of the guard flag\<close>

lemma mouse_on_click_flag_stays_false:
  assumes "\<not> is_script_running s"
    and "mouse_on_click w x y button pressed s = (Returned v, s')"
  shows "\<not> is_script_running s'"
proof (cases "button = button_to_trigger \<and> pressed \<and> \<not> is_script_running s")
  case True
  with assms(2) have "mouse_on_click w x y button_to_trigger True s = (Returned v, s')"
    by simp
  from mouse_on_click_returned [OF assms(1) this]
  have "s' = s\<lparr>performed := performed s @ replay_calls\<rparr>" ..
  with assms(1) show ?thesis by simp
next
  case False
  then have "mouse_on_click w x y button pressed s = (Returned PyNone, s)"
    by (rule mouse_on_click_ignores)
  with assms show ?thesis by simp
qed

lemma mouse_on_click_returns_None:
  assumes "mouse_on_click w x y button pressed s = (Returned v, s')"
  shows "v = PyNone"
  using assms
  by (auto simp: mouse_on_click_def split: if_splits prod.splits option.splits)

lemma deliver_mouse_flag_stays_false:
  assumes "\<not> is_script_running s"
    and "deliver (mouse_on_click w) evs s = (All_delivered, s')"
  shows "\<not> is_script_running s'"
  using assms
proof (induction evs arbitrary: s)
  case Nil
  then show ?case by simp
next
  case (Cons ev evs)
  obtain x y button pressed where ev: "ev = (x, y, button, pressed)"
    by (cases ev) auto
  show ?case
  proof (cases "mouse_on_click w x y button pressed s")
    case (Pair r t)
    show ?thesis
    proof (cases r)
      case (Returned v)
      with Pair have v: "v = PyNone" and t: "\<not> is_script_running t"
        using mouse_on_click_returns_None mouse_on_click_flag_stays_false Cons.prems(1) by blast+
      from Cons.prems(2) have "deliver (mouse_on_click w) evs t = (All_delivered, s')"
        by (simp add: ev Pair Returned v)
      with t show ?thesis by (rule Cons.IH)
    next
      case (Raised e)
      with Cons.prems(2) Pair show ?thesis by (simp add: ev)
    qed
  qed
qed

text \<open>
  C3. The first statement of the replay sets \<^verbatim>\<open>is_script_running\<close> to true; after each
  further statement but the last the flag is still true; the last statement sets it to
  false. An invocation of the handler that starts with the flag false and returns leaves
  it false, and so does any run of events all of which have been handled.
\<close>

theorem guard_flag_lifecycle:
  assumes "\<not> is_script_running s"
  shows "run (take 1 (script w)) s = (None, s\<lparr>is_script_running := True\<rparr>)
       \<and> (\<forall>k t. 0 < k \<and> k < length (script w) \<and> run (take k (script w)) s = (None, t)
            \<longrightarrow> is_script_running t)
       \<and> (\<forall>t. run (script w) s = (None, t) \<longrightarrow> \<not> is_script_running t)
       \<and> (\<forall>x y button pressed v s'.
            mouse_on_click w x y button pressed s = (Returned v, s') \<longrightarrow> \<not> is_script_running s')
       \<and> (\<forall>evs s'. deliver (mouse_on_click w) evs s = (All_delivered, s') \<longrightarrow> \<not> is_script_running s')"
proof (intro conjI allI impI)
  show "run (take 1 (script w)) s = (None, s\<lparr>is_script_running := True\<rparr>)"
    by (simp add: script_shape assign_is_script_running_def)
next
  fix k t
  assume k: "0 < k \<and> k < length (script w) \<and> run (take k (script w)) s = (None, t)"
  then have "0 < k" "k < length (script w)" "run (take k (script w)) s = (None, t)"
    by simp_all
  with run_script_prefix [of k w s]
  have "run (map (perform w) (take (k - 1) replay_calls)) (s\<lparr>is_script_running := True\<rparr>) = (None, t)"
    by simp
  from run_performs_flag [OF this] show "is_script_running t" by simp
next
  fix t
  assume "run (script w) s = (None, t)"
  from run_script_completes [OF this] show "\<not> is_script_running t" by simp
next
  fix x y button pressed v s'
  assume "mouse_on_click w x y button pressed s = (Returned v, s')"
  with assms show "\<not> is_script_running s'" by (rule mouse_on_click_flag_stays_false)
next
  fix evs s'
  assume "deliver (mouse_on_click w) evs s = (All_delivered, s')"
  with assms show "\<not> is_script_running s'" by (rule deliver_mouse_flag_stays_false)
qed

theorem guard_flag_lifecycle_witness:
  "run (take 1 (script never_raises)) initial_state = (None, \<lparr>is_script_running = True, performed = []\<rparr>)
   \<and> is_script_running (snd (run (take 4 (script never_raises)) initial_state))
   \<and> is_script_running (snd (run (take 10 (script never_raises)) initial_state))
   \<and> \<not> is_script_running (snd (run (script never_raises) initial_state))
   \<and> \<not> is_script_running (snd (mouse_on_click never_raises 0 0 Button_x2 True initial_state))"
proof -
  have idle: "\<not> is_script_running initial_state"
    by (simp add: initial_state_def)
  have r4: "run (take 4 (script never_raises)) initial_state =
      (None, \<lparr>is_script_running = True,
         performed = [Key_press (CHR ''v''), Sleep (Uniform (96 / 1000) (1 / 10)), Key_release (CHR ''v'')]\<rparr>)"
    by (simp add: script_def perform_def assign_is_script_running_def never_raises_def initial_state_def)
  have r10: "run (take 10 (script never_raises)) initial_state =
      (None, \<lparr>is_script_running = True, performed = replay_calls\<rparr>)"
    by (simp add: script_def perform_def assign_is_script_running_def never_raises_def initial_state_def
        replay_calls_def)
  have r11: "run (script never_raises) initial_state =
      (None, \<lparr>is_script_running = False, performed = replay_calls\<rparr>)"
    by (simp add: run_script_never_raises initial_state_def)
  have c: "mouse_on_click never_raises 0 0 Button_x2 True initial_state =
      (Returned PyNone, \<lparr>is_script_running = False, performed = replay_calls\<rparr>)"
    using mouse_on_click_never_raises [OF idle, of 0 0]
    by (simp add: initial_state_def button_to_trigger_def)
  from guard_flag_lifecycle [OF idle, of never_raises] r4 r10 r11 c show ?thesis
    by (simp add: initial_state_def script_def)
qed

subsection \<open>C4: a second press after a completed replay\<close>

lemma deliver_two_presses:
  assumes "\<not> is_script_running s"
    and "deliver (mouse_on_click w)
           [(x1, y1, button_to_trigger, True), (x2, y2, button_to_trigger, True)] s = (All_delivered, s')"
  shows "s' = s\<lparr>performed := performed s @ replay_calls @ replay_calls\<rparr>"
proof (cases "mouse_on_click w x1 y1 button_to_trigger True s")
  case first: (Pair r1 t1)
  show ?thesis
  proof (cases r1)
    case (Returned v1)
    from mouse_on_click_returned [OF assms(1) first [unfolded Returned]]
    have v1: "v1 = PyNone" and t1: "t1 = s\<lparr>performed := performed s @ replay_calls\<rparr>"
      by simp_all
    from t1 assms(1) have idle: "\<not> is_script_running t1" by simp
    show ?thesis
    proof (cases "mouse_on_click w x2 y2 button_to_trigger True t1")
      case second: (Pair r2 t2)
      show ?thesis
      proof (cases r2)
        case (Returned v2)
        from mouse_on_click_returned [OF idle second [unfolded Returned]]
        have v2: "v2 = PyNone" and t2: "t2 = t1\<lparr>performed := performed t1 @ replay_calls\<rparr>"
          by simp_all
        from assms(2) have "s' = t2"
          by (simp add: first \<open>r1 = Returned v1\<close> v1 second Returned v2)
        with t1 t2 show ?thesis by simp
      next
        case (Raised e)
        with assms(2) show ?thesis
          by (simp add: first \<open>r1 = Returned v1\<close> v1 second)
      qed
    qed
  next
    case (Raised e)
    with assms(2) first show ?thesis by simp
  qed
qed

text \<open>
  C4. Two presses of the trigger button, the second delivered after the first replay has
  completed: after the first the flag is false again, and the second is handled like the
  first, so the full replay is emitted twice. When no call raises, both are handled; on
  any platform, if both are handled, the calls added are two full replays.
\<close>

theorem second_press_replays_again:
  assumes "\<not> is_script_running s"
  shows "\<not> is_script_running (snd (mouse_on_click never_raises x1 y1 button_to_trigger True s))
       \<and> deliver (mouse_on_click never_raises)
           [(x1, y1, button_to_trigger, True), (x2, y2, button_to_trigger, True)] s =
           (All_delivered, s\<lparr>performed := performed s @ replay_calls @ replay_calls\<rparr>)
       \<and> (\<forall>s'. deliver (mouse_on_click w)
             [(x1, y1, button_to_trigger, True), (x2, y2, button_to_trigger, True)] s = (All_delivered, s')
            \<longrightarrow> key_events (drop (length (performed s)) (performed s')) =
              [Key_press (CHR ''v''), Key_release (CHR ''v''),
               Key_press (CHR ''2''), Key_release (CHR ''2''),
               Key_press (CHR ''1''), Key_release (CHR ''1''),
               Key_press (CHR ''v''), Key_release (CHR ''v''),
               Key_press (CHR ''2''), Key_release (CHR ''2''),
               Key_press (CHR ''1''), Key_release (CHR ''1'')])"
proof (intro conjI allI impI)
  let ?t = "s\<lparr>performed := performed s @ replay_calls\<rparr>"
  have first: "mouse_on_click never_raises x1 y1 button_to_trigger True s = (Returned PyNone, ?t)"
    using assms by (rule mouse_on_click_never_raises)
  from assms have idle: "\<not> is_script_running ?t" by simp
  have second: "mouse_on_click never_raises x2 y2 button_to_trigger True ?t =
      (Returned PyNone, ?t\<lparr>performed := performed ?t @ replay_calls\<rparr>)"
    using idle by (rule mouse_on_click_never_raises)
  show "\<not> is_script_running (snd (mouse_on_click never_raises x1 y1 button_to_trigger True s))"
    using assms by (simp add: first)
  show "deliver (mouse_on_click never_raises)
           [(x1, y1, button_to_trigger, True), (x2, y2, button_to_trigger, True)] s =
           (All_delivered, s\<lparr>performed := performed s @ replay_calls @ replay_calls\<rparr>)"
    by (simp add: first second)
next
  fix s'
  assume "deliver (mouse_on_click w)
             [(x1, y1, button_to_trigger, True), (x2, y2, button_to_trigger, True)] s = (All_delivered, s')"
  with assms have "s' = s\<lparr>performed := performed s @ replay_calls @ replay_calls\<rparr>"
    by (rule deliver_two_presses)
  then show "key_events (drop (length (performed s)) (performed s')) =
              [Key_press (CHR ''v''), Key_release (CHR ''v''),
               Key_press (CHR ''2''), Key_release (CHR ''2''),
               Key_press (CHR ''1''), Key_release (CHR ''1''),
               Key_press (CHR ''v''), Key_release (CHR ''v''),
               Key_press (CHR ''2''), Key_release (CHR ''2''),
               Key_press (CHR ''1''), Key_release (CHR ''1'')]"
    by (simp add: key_events_def replay_calls_def)
qed

theorem second_press_replays_again_witness:
  "\<not> is_script_running (snd (mouse_on_click never_raises 5 5 Button_x2 True initial_state))
   \<and> deliver (mouse_on_click never_raises) [(5, 5, Button_x2, True), (6, 7, Button_x2, True)] initial_state =
       (All_delivered, \<lparr>is_script_running = False, performed = replay_calls @ replay_calls\<rparr>)"
  using second_press_replays_again [of initial_state 5 5 6 7 never_raises]
  by (simp add: initial_state_def button_to_trigger_def)

subsection \<open>C5: one printed line per event\<close>

lemma mouseid_on_click_printed:
  "out console (button_message button pressed) = None \<Longrightarrow>
     mouseid_on_click out x y button pressed console =
       (Returned PyNone, console @ [button_message button pressed])"
  by (simp add: mouseid_on_click_def)

lemma mouseid_on_click_failed:
  "out console (button_message button pressed) = Some e \<Longrightarrow>
     mouseid_on_click out x y button pressed console = (Raised e, console)"
  by (simp add: mouseid_on_click_def)

lemma deliver_mouseid_all:
  assumes "deliver (mouseid_on_click out) evs console = (All_delivered, console')"
  shows "console' = console @ map (\<lambda>(x, y, button, pressed). button_message button pressed) evs"
  using assms
proof (induction evs arbitrary: console)
  case Nil
  then show ?case by simp
next
  case (Cons ev evs)
  obtain x y button pressed where ev: "ev = (x, y, button, pressed)"
    by (cases ev) auto
  show ?case
  proof (cases "out console (button_message button pressed)")
    case None
    with Cons.prems have "deliver (mouseid_on_click out) evs (console @ [button_message button pressed]) =
        (All_delivered, console')"
      by (simp add: ev mouseid_on_click_printed)
    from Cons.IH [OF this] show ?thesis by (simp add: ev)
  next
    case (Some e)
    with Cons.prems show ?thesis
      by (simp add: ev mouseid_on_click_failed)
  qed
qed

lemma deliver_mouseid_never_fails:
  "deliver (mouseid_on_click stdout_never_fails) evs console =
     (All_delivered, console @ map (\<lambda>(x, y, button, pressed). button_message button pressed) evs)"
proof (induction evs arbitrary: console)
  case Nil
  show ?case by simp
next
  case (Cons ev evs)
  obtain x y button pressed where ev: "ev = (x, y, button, pressed)"
    by (cases ev) auto
  have "mouseid_on_click stdout_never_fails x y button pressed console =
      (Returned PyNone, console @ [button_message button pressed])"
    by (rule mouseid_on_click_printed) (simp add: stdout_never_fails_def)
  then have "deliver (mouseid_on_click stdout_never_fails) (ev # evs) console =
      deliver (mouseid_on_click stdout_never_fails) evs (console @ [button_message button pressed])"
    by (simp add: ev)
  also note Cons.IH [of "console @ [button_message button pressed]"]
  finally show ?case by (simp add: ev)
qed

lemma deliver_mouseid_print_fails:
  "deliver (mouseid_on_click (\<lambda>printed line. Some (Other_exception ''BrokenPipeError'')))
     [(x, y, button, pressed)] console =
     (Callback_raised (Other_exception ''BrokenPipeError''), console)"
  by (simp add: mouseid_on_click_def)

lemma button_message_format:
  "(\<lambda>(x, y, button, pressed). button_message button pressed) =
   (\<lambda>(x :: int, y :: int, button, pressed).
      ''Button '' @ str_button button @ '' '' @ (if pressed then ''pressed'' else ''released''))"
  by (simp add: button_message_def fun_eq_iff)

text \<open>
  C5. For every sequence of events handed to the handler of the button identifier and
  handled to the end, the console has received exactly one line per event, in the order
  of delivery, each \<^verbatim>\<open>Button <button> <pressed|released>\<close> with \<^verbatim>\<open>pressed\<close> for a press and
  \<^verbatim>\<open>released\<close> for a release; nothing is filtered or merged. When the standard output
  never fails, every sequence is handled to the end, and the events (A, press),
  (A, release), (B, press) give three lines.
\<close>

theorem button_identifier_lines:
  assumes "deliver (mouseid_on_click out) evs console = (All_delivered, console')"
  shows "console' =
           console @ map (\<lambda>(x, y, button, pressed).
             ''Button '' @ str_button button @ '' '' @ (if pressed then ''pressed'' else ''released'')) evs
       \<and> length console' = length console + length evs
       \<and> deliver (mouseid_on_click stdout_never_fails) evs console =
           (All_delivered,
            console @ map (\<lambda>(x, y, button, pressed).
              ''Button '' @ str_button button @ '' '' @ (if pressed then ''pressed'' else ''released'')) evs)
       \<and> deliver (mouseid_on_click stdout_never_fails)
            [(x1, y1, Button_left, True), (x2, y2, Button_left, False), (x3, y3, Button_button8, True)] [] =
           (All_delivered,
            [''Button Button.left pressed'', ''Button Button.left released'',
             ''Button Button.button8 pressed''])"
proof (intro conjI)
  from deliver_mouseid_all [OF assms]
  show lines: "console' =
           console @ map (\<lambda>(x, y, button, pressed).
             ''Button '' @ str_button button @ '' '' @ (if pressed then ''pressed'' else ''released'')) evs"
    by (simp only: button_message_format)
  then show "length console' = length console + length evs"
    by simp
  show "deliver (mouseid_on_click stdout_never_fails) evs console =
           (All_delivered,
            console @ map (\<lambda>(x, y, button, pressed).
              ''Button '' @ str_button button @ '' '' @ (if pressed then ''pressed'' else ''released'')) evs)"
    by (simp only: deliver_mouseid_never_fails button_message_format)
  show "deliver (mouseid_on_click stdout_never_fails)
            [(x1, y1, Button_left, True), (x2, y2, Button_left, False), (x3, y3, Button_button8, True)] [] =
           (All_delivered,
            [''Button Button.left pressed'', ''Button Button.left released'',
             ''Button Button.button8 pressed''])"
    unfolding deliver_mouseid_never_fails by (simp add: button_message_def)
qed

theorem button_identifier_lines_witness:
  "deliver (mouseid_on_click stdout_never_fails)
     [(10, 20, Button_left, True), (10, 20, Button_left, False), (30, 40, Button_x2, True)]
     [''earlier line''] =
     (All_delivered,
      [''earlier line'', ''Button Button.left pressed'', ''Button Button.left released'',
       ''Button Button.x2 pressed''])
   \<and> length (snd (deliver (mouseid_on_click stdout_never_fails)
        [(10, 20, Button_left, True), (10, 20, Button_left, False), (30, 40, Button_x2, True)]
        [''earlier line''])) = 4"
proof -
  let ?evs = "[(10 :: int, 20 :: int, Button_left, True), (10, 20, Button_left, False),
      (30, 40, Button_x2, True)]"
  let ?out = "[''earlier line'', ''Button Button.left pressed'', ''Button Button.left released'',
       ''Button Button.x2 pressed'']"
  have ev: "deliver (mouseid_on_click stdout_never_fails) ?evs [''earlier line''] = (All_delivered, ?out)"
    unfolding deliver_mouseid_never_fails by (simp add: button_message_def)
  from button_identifier_lines [OF ev] have "length ?out = length [''earlier line''] + length ?evs"
    by (rule conjunct1 [OF conjunct2])
  with ev show ?thesis by simp
qed

subsection \<open>C6: an interrupt while joining the listener\<close>

text \<open>
  C6. A \<^verbatim>\<open>KeyboardInterrupt\<close> raised out of \<^verbatim>\<open>listener.join()\<close> is caught by
  \<^verbatim>\<open>mouse.py\<close>, which then ends normally. \<^verbatim>\<open>mouseid.py\<close> has no handler around the same
  call: there the interrupt reaches the top level uncaught. Any other exception is
  uncaught in both scripts.
\<close>

theorem interrupt_while_joining:
  "mouse_main (Some KeyboardInterrupt) = Normal_exit
   \<and> mouseid_main (Some KeyboardInterrupt) = Uncaught KeyboardInterrupt
   \<and> mouseid_main (Some KeyboardInterrupt) \<noteq> Normal_exit
   \<and> mouse_main (Some (Other_exception name)) = Uncaught (Other_exception name)
   \<and> mouseid_main (Some (Other_exception name)) = Uncaught (Other_exception name)"
  by (simp add: mouse_main_def mouseid_main_def)

subsection \<open>C7: the hold durations and the wait\<close>

lemma uniform_hold_bounds:
  assumes "0 \<le> u" "u < 1"
  shows "96 \<le> 1000 * uniform (96 / 1000) (1 / 10) u \<and> 1000 * uniform (96 / 1000) (1 / 10) u \<le> 100"
proof -
  have "1000 * uniform (96 / 1000) (1 / 10) u = 96 + 4 * u"
    by (simp add: uniform_def algebra_simps)
  with assms show ?thesis by simp
qed

lemma uniform_hold_onto:
  assumes "96 \<le> d" "d < 100"
  shows "\<exists>u. 0 \<le> u \<and> u < 1 \<and> 1000 * uniform (96 / 1000) (1 / 10) u = d"
proof -
  let ?u = "(d - 96) / 4"
  have "1000 * uniform (96 / 1000) (1 / 10) ?u = d"
    by (simp add: uniform_def field_simps)
  moreover from assms have "0 \<le> ?u \<and> ?u < 1" by simp
  ultimately show ?thesis by blast
qed

text \<open>
  C7. In every replay that completes, the sleep between pressing and releasing v and the
  sleep between pressing and releasing 1 are each \<^verbatim>\<open>random.uniform(0.096, 0.1)\<close>, a draw
  of its own: for every value of \<^verbatim>\<open>random()\<close> the hold lies between 96 and 100
  milliseconds, and every duration from 96 up to 100 milliseconds is the hold of some
  draw. The sleep between releasing v and pressing 2 is 5 milliseconds whatever is drawn.
  The durations are those asked of \<^verbatim>\<open>time.sleep\<close>, in exact arithmetic.
\<close>

theorem hold_durations_in_range:
  assumes "\<not> is_script_running s"
    and "mouse_on_click w x y button_to_trigger True s = (Returned v, s')"
    and "0 \<le> u1" "u1 < 1" "0 \<le> u2" "u2 < 1"
  shows "\<exists>hold_v wait hold_1.
           drop (length (performed s)) (performed s') =
             [Key_press (CHR ''v''), Sleep hold_v, Key_release (CHR ''v''),
              Sleep wait,
              Key_press (CHR ''2''), Key_release (CHR ''2''),
              Key_press (CHR ''1''), Sleep hold_1, Key_release (CHR ''1'')]
         \<and> 96 \<le> 1000 * duration hold_v u1 \<and> 1000 * duration hold_v u1 \<le> 100
         \<and> 96 \<le> 1000 * duration hold_1 u2 \<and> 1000 * duration hold_1 u2 \<le> 100
         \<and> 1000 * duration wait u3 = 5
         \<and> (\<forall>d. 96 \<le> d \<and> d < 100 \<longrightarrow>
               (\<exists>u. 0 \<le> u \<and> u < 1 \<and> 1000 * duration hold_v u = d)
             \<and> (\<exists>u. 0 \<le> u \<and> u < 1 \<and> 1000 * duration hold_1 u = d))"
proof -
  let ?hold = "Uniform (96 / 1000) (1 / 10)"
  let ?wait = "Literal (5 / 1000)"
  from mouse_on_click_returned [OF assms(1,2)]
  have "s' = s\<lparr>performed := performed s @ replay_calls\<rparr>" ..
  then have calls: "drop (length (performed s)) (performed s') =
             [Key_press (CHR ''v''), Sleep ?hold, Key_release (CHR ''v''),
              Sleep ?wait,
              Key_press (CHR ''2''), Key_release (CHR ''2''),
              Key_press (CHR ''1''), Sleep ?hold, Key_release (CHR ''1'')]"
    by (simp add: replay_calls_def)
  have v: "96 \<le> 1000 * duration ?hold u1 \<and> 1000 * duration ?hold u1 \<le> 100"
    using uniform_hold_bounds [OF assms(3,4)] by simp
  have one: "96 \<le> 1000 * duration ?hold u2 \<and> 1000 * duration ?hold u2 \<le> 100"
    using uniform_hold_bounds [OF assms(5,6)] by simp
  have wait: "1000 * duration ?wait u3 = 5"
    by simp
  have onto: "\<forall>d. 96 \<le> d \<and> d < 100 \<longrightarrow>
               (\<exists>u. 0 \<le> u \<and> u < 1 \<and> 1000 * duration ?hold u = d)
             \<and> (\<exists>u. 0 \<le> u \<and> u < 1 \<and> 1000 * duration ?hold u = d)"
    using uniform_hold_onto by simp
  from calls v one wait onto show ?thesis by blast
qed

theorem hold_durations_in_range_witness:
  "drop 0 (performed (snd (mouse_on_click never_raises 0 0 Button_x2 True initial_state))) =
     [Key_press (CHR ''v''), Sleep (Uniform (96 / 1000) (1 / 10)), Key_release (CHR ''v''),
      Sleep (Literal (5 / 1000)),
      Key_press (CHR ''2''), Key_release (CHR ''2''),
      Key_press (CHR ''1''), Sleep (Uniform (96 / 1000) (1 / 10)), Key_release (CHR ''1'')]
   \<and> 1000 * duration (Uniform (96 / 1000) (1 / 10)) 0 = 96
   \<and> 1000 * duration (Uniform (96 / 1000) (1 / 10)) (1 / 2) = 98
   \<and> 1000 * duration (Literal (5 / 1000)) (1 / 2) = 5
   \<and> (\<exists>hold_v wait hold_1.
        drop 0 (performed (snd (mouse_on_click never_raises 0 0 Button_x2 True initial_state))) =
          [Key_press (CHR ''v''), Sleep hold_v, Key_release (CHR ''v''),
           Sleep wait,
           Key_press (CHR ''2''), Key_release (CHR ''2''),
           Key_press (CHR ''1''), Sleep hold_1, Key_release (CHR ''1'')]
        \<and> 96 \<le> 1000 * duration hold_v 0 \<and> 1000 * duration hold_v 0 \<le> 100
        \<and> 96 \<le> 1000 * duration hold_1 (1 / 2) \<and> 1000 * duration hold_1 (1 / 2) \<le> 100
        \<and> 1000 * duration wait (1 / 2) = 5)"
proof -
  have idle: "\<not> is_script_running initial_state"
    by (simp add: initial_state_def)
  have ev: "mouse_on_click never_raises 0 0 button_to_trigger True initial_state =
      (Returned PyNone, snd (mouse_on_click never_raises 0 0 Button_x2 True initial_state))"
    using mouse_on_click_never_raises [OF idle, of 0 0] by (simp add: button_to_trigger_def)
  have calls: "drop 0 (performed (snd (mouse_on_click never_raises 0 0 Button_x2 True initial_state))) =
     [Key_press (CHR ''v''), Sleep (Uniform (96 / 1000) (1 / 10)), Key_release (CHR ''v''),
      Sleep (Literal (5 / 1000)),
      Key_press (CHR ''2''), Key_release (CHR ''2''),
      Key_press (CHR ''1''), Sleep (Uniform (96 / 1000) (1 / 10)), Key_release (CHR ''1'')]"
    using mouse_on_click_never_raises [OF idle, of 0 0]
    by (simp add: button_to_trigger_def initial_state_def replay_calls_def)
  have durations: "1000 * duration (Uniform (96 / 1000) (1 / 10)) 0 = 96"
    "1000 * duration (Uniform (96 / 1000) (1 / 10)) (1 / 2) = 98"
    "1000 * duration (Literal (5 / 1000)) (1 / 2) = 5"
    by (simp_all add: uniform_def)
  have "(0 :: rat) \<le> 0" "(0 :: rat) < 1" "(0 :: rat) \<le> 1 / 2" "(1 / 2 :: rat) < 1"
    by simp_all
  from hold_durations_in_range [OF idle ev this, of "1 / 2"]
  have "\<exists>hold_v wait hold_1.
        drop 0 (performed (snd (mouse_on_click never_raises 0 0 Button_x2 True initial_state))) =
          [Key_press (CHR ''v''), Sleep hold_v, Key_release (CHR ''v''),
           Sleep wait,
           Key_press (CHR ''2''), Key_release (CHR ''2''),
           Key_press (CHR ''1''), Sleep hold_1, Key_release (CHR ''1'')]
        \<and> 96 \<le> 1000 * duration hold_v 0 \<and> 1000 * duration hold_v 0 \<le> 100
        \<and> 96 \<le> 1000 * duration hold_1 (1 / 2) \<and> 1000 * duration hold_1 (1 / 2) \<le> 100
        \<and> 1000 * duration wait (1 / 2) = 5"
    by (simp add: initial_state_def) blast
  with calls durations show ?thesis by blast
qed

subsection \<open>C8: an exception in the middle of the replay\<close>

text \<open>
  C8. When a call of the replay raises, the handler ends with that exception and nothing
  resets the flag: \<^verbatim>\<open>is_script_running\<close> is true in the state left behind, the calls
  performed are the replay's calls before the one that raised, and a key pressed but not
  yet released stays held (v when the sleep or the release after pressing v raises, 2
  when its release raises, 1 likewise). Every later event is then ignored.
\<close>

theorem exception_leaves_flag_set:
  assumes "\<not> is_script_running s"
    and "mouse_on_click w x y button_to_trigger True s = (Raised e, s')"
  shows "is_script_running s'
       \<and> (\<exists>n<9. performed s' = performed s @ take n replay_calls
             \<and> w (performed s') (replay_calls ! n) = Some e
             \<and> held_keys (take n replay_calls) =
                 (if n = 1 \<or> n = 2 then ''v'' else if n = 5 then ''2''
                  else if n = 7 \<or> n = 8 then ''1'' else []))
       \<and> mouse_on_click w' x' y' button' pressed' s' = (Returned PyNone, s')"
proof -
  from mouse_on_click_raised [OF assms(2)] have "run (script w) s = (Some e, s')"
    by simp
  from run_script_raised [OF this] obtain n where n: "n < 9"
    and s': "s' = s\<lparr>is_script_running := True, performed := performed s @ take n replay_calls\<rparr>"
    and raised: "w (performed s') (replay_calls ! n) = Some e"
    by blast
  from s' have flag: "is_script_running s'" and calls: "performed s' = performed s @ take n replay_calls"
    by simp_all
  from flag have "mouse_on_click w' x' y' button' pressed' s' = (Returned PyNone, s')"
    by (simp add: mouse_on_click_ignores)
  moreover from n calls raised held_keys_replay_prefix [OF n]
  have "\<exists>n<9. performed s' = performed s @ take n replay_calls
             \<and> w (performed s') (replay_calls ! n) = Some e
             \<and> held_keys (take n replay_calls) =
                 (if n = 1 \<or> n = 2 then ''v'' else if n = 5 then ''2''
                  else if n = 7 \<or> n = 8 then ''1'' else [])"
    by blast
  ultimately show ?thesis using flag by blast
qed

theorem exception_leaves_flag_set_witness:
  "mouse_on_click
     (\<lambda>done c. if c = Key_release (CHR ''v'') then Some (Other_exception ''OSError'') else None)
     0 0 Button_x2 True initial_state =
     (Raised (Other_exception ''OSError''),
      \<lparr>is_script_running = True,
         performed = [Key_press (CHR ''v''), Sleep (Uniform (96 / 1000) (1 / 10))]\<rparr>)
   \<and> is_script_running \<lparr>is_script_running = True,
         performed = [Key_press (CHR ''v''), Sleep (Uniform (96 / 1000) (1 / 10))]\<rparr>
   \<and> held_keys [Key_press (CHR ''v''), Sleep (Uniform (96 / 1000) (1 / 10))] = ''v''
   \<and> mouse_on_click never_raises 0 0 Button_x2 True
        \<lparr>is_script_running = True,
           performed = [Key_press (CHR ''v''), Sleep (Uniform (96 / 1000) (1 / 10))]\<rparr> =
       (Returned PyNone,
        \<lparr>is_script_running = True,
           performed = [Key_press (CHR ''v''), Sleep (Uniform (96 / 1000) (1 / 10))]\<rparr>)"
proof -
  let ?w = "\<lambda>done c. if c = Key_release (CHR ''v'') then Some (Other_exception ''OSError'') else None"
  let ?s' = "\<lparr>is_script_running = True,
         performed = [Key_press (CHR ''v''), Sleep (Uniform (96 / 1000) (1 / 10))]\<rparr>"
  have idle: "\<not> is_script_running initial_state"
    by (simp add: initial_state_def)
  have ev: "mouse_on_click ?w 0 0 button_to_trigger True initial_state =
      (Raised (Other_exception ''OSError''), ?s')"
    by (simp add: mouse_on_click_def script_def perform_def assign_is_script_running_def
        initial_state_def)
  have held: "held_keys [Key_press (CHR ''v''), Sleep (Uniform (96 / 1000) (1 / 10))] = ''v''"
    by (simp add: held_keys_def)
  from exception_leaves_flag_set [OF idle ev, of never_raises 0 0 Button_x2 True]
  have "is_script_running ?s' \<and> mouse_on_click never_raises 0 0 Button_x2 True ?s' = (Returned PyNone, ?s')"
    by blast
  with ev held show ?thesis
    by (simp add: button_to_trigger_def)
qed

subsection \<open>C9: the cursor position is not used\<close>

text \<open>
  C9. Neither handler looks at the cursor position: two invocations that differ only in
  \<open>x\<close> and \<open>y\<close> behave alike, in the replay script (same outcome, same calls, same flag)
  and in the button identifier (same printed line).
\<close>

theorem cursor_position_unused:
  "mouse_on_click w x y button pressed s = mouse_on_click w x' y' button pressed s
   \<and> mouseid_on_click out x y button pressed console = mouseid_on_click out x' y' button pressed console"
  by (simp add: mouse_on_click_def mouseid_on_click_def)

subsection \<open>C10: the callbacks never stop the listener\<close>

lemma mouse_on_click_outcome:
  "fst (mouse_on_click w x y button pressed s) = Returned PyNone
   \<or> (\<exists>e. fst (mouse_on_click w x y button pressed s) = Raised e)"
  by (auto simp: mouse_on_click_def split: prod.splits option.splits)

lemma mouse_on_click_never_raises_outcome:
  "fst (mouse_on_click never_raises x y button pressed s) = Returned PyNone"
  by (simp add: mouse_on_click_def run_script_never_raises)

lemma deliver_mouse_not_stopped:
  "fst (deliver (mouse_on_click w) evs s) \<noteq> Stopped_by_callback"
proof (induction evs arbitrary: s)
  case Nil
  show ?case by simp
next
  case (Cons ev evs)
  obtain x y button pressed where ev: "ev = (x, y, button, pressed)"
    by (cases ev) auto
  show ?case
  proof (cases "mouse_on_click w x y button pressed s")
    case (Pair r t)
    with mouse_on_click_outcome [of w x y button pressed s]
    consider "r = Returned PyNone" | e where "r = Raised e"
      by auto
    then show ?thesis
    proof cases
      case 1
      with Pair Cons.IH [of t] show ?thesis by (simp add: ev)
    next
      case 2
      with Pair show ?thesis by (simp add: ev)
    qed
  qed
qed

lemma deliver_mouse_never_raises:
  "fst (deliver (mouse_on_click never_raises) evs s) = All_delivered"
proof (induction evs arbitrary: s)
  case Nil
  show ?case by simp
next
  case (Cons ev evs)
  obtain x y button pressed where ev: "ev = (x, y, button, pressed)"
    by (cases ev) auto
  show ?case
  proof (cases "mouse_on_click never_raises x y button pressed s")
    case (Pair r t)
    with mouse_on_click_never_raises_outcome [of x y button pressed s]
    have "r = Returned PyNone" by simp
    with Pair Cons.IH [of t] show ?thesis by (simp add: ev)
  qed
qed

lemma mouseid_on_click_outcome:
  "fst (mouseid_on_click out x y button pressed console) = Returned PyNone
   \<or> (\<exists>e. fst (mouseid_on_click out x y button pressed console) = Raised e)"
  by (simp add: mouseid_on_click_def split: option.splits)

lemma deliver_mouseid_not_stopped:
  "fst (deliver (mouseid_on_click out) evs console) \<noteq> Stopped_by_callback"
proof (induction evs arbitrary: console)
  case Nil
  show ?case by simp
next
  case (Cons ev evs)
  obtain x y button pressed where ev: "ev = (x, y, button, pressed)"
    by (cases ev) auto
  show ?case
  proof (cases "out console (button_message button pressed)")
    case None
    with Cons.IH [of "console @ [button_message button pressed]"] show ?thesis
      by (simp add: ev mouseid_on_click_printed)
  next
    case (Some e)
    then show ?thesis
      by (simp add: ev mouseid_on_click_failed)
  qed
qed

text \<open>
  C10. Neither callback tells the listener to stop. Each handler, for every event and on
  every platform, returns \<^verbatim>\<open>None\<close> or ends with the exception of a call it made (a key
  event or a sleep in the replay script, \<^verbatim>\<open>print\<close> in the button identifier); when no call
  raises, each returns \<^verbatim>\<open>None\<close> for every event. So no delivery of events ends because a
  callback returned \<^verbatim>\<open>False\<close>, and when no call raises every event of any sequence is
  handled, also those after a completed replay.
\<close>

theorem callbacks_never_stop_listener:
  "(fst (mouse_on_click w x y button pressed s) = Returned PyNone
      \<or> (\<exists>e. fst (mouse_on_click w x y button pressed s) = Raised e))
   \<and> fst (mouse_on_click never_raises x y button pressed s) = Returned PyNone
   \<and> (fst (mouseid_on_click out x y button pressed console) = Returned PyNone
      \<or> (\<exists>e. fst (mouseid_on_click out x y button pressed console) = Raised e))
   \<and> fst (mouseid_on_click stdout_never_fails x y button pressed console) = Returned PyNone
   \<and> fst (deliver (mouse_on_click w) evs s) \<noteq> Stopped_by_callback
   \<and> fst (deliver (mouse_on_click never_raises) evs s) = All_delivered
   \<and> fst (deliver (mouseid_on_click out) evs console) \<noteq> Stopped_by_callback
   \<and> fst (deliver (mouseid_on_click stdout_never_fails) evs console) = All_delivered"
proof (intro conjI)
  show "fst (mouse_on_click w x y button pressed s) = Returned PyNone
      \<or> (\<exists>e. fst (mouse_on_click w x y button pressed s) = Raised e)"
    by (rule mouse_on_click_outcome)
  show "fst (mouse_on_click never_raises x y button pressed s) = Returned PyNone"
    by (rule mouse_on_click_never_raises_outcome)
  show "fst (mouseid_on_click out x y button pressed console) = Returned PyNone
      \<or> (\<exists>e. fst (mouseid_on_click out x y button pressed console) = Raised e)"
    by (rule mouseid_on_click_outcome)
  show "fst (mouseid_on_click stdout_never_fails x y button pressed console) = Returned PyNone"
    by (simp add: mouseid_on_click_def stdout_never_fails_def)
  show "fst (deliver (mouse_on_click w) evs s) \<noteq> Stopped_by_callback"
    by (rule deliver_mouse_not_stopped)
  show "fst (deliver (mouse_on_click never_raises) evs s) = All_delivered"
    by (rule deliver_mouse_never_raises)
  show "fst (deliver (mouseid_on_click out) evs console) \<noteq> Stopped_by_callback"
    by (rule deliver_mouseid_not_stopped)
  show "fst (deliver (mouseid_on_click stdout_never_fails) evs console) = All_delivered"
    by (simp only: deliver_mouseid_never_fails fst_conv)
qed

subsection \<open>The calls of a replay, sleeps included\<close>

text \<open>
  On any platform, an invocation for a press of the trigger button that starts with the
  flag false and returns has made exactly nine calls, in this order: press v, sleep for
  \<^verbatim>\<open>random.uniform(0.096, 0.1)\<close> seconds, release v, sleep for \<^verbatim>\<open>0.005\<close> seconds, press 2,
  release 2, press 1, sleep for \<^verbatim>\<open>random.uniform(0.096, 0.1)\<close> seconds, release 1.
\<close>

theorem replay_calls_in_order:
  assumes "\<not> is_script_running s"
    and "mouse_on_click w x y button_to_trigger True s = (Returned v, s')"
  shows "performed s' = performed s @
     [Key_press (CHR ''v''), Sleep (Uniform (96 / 1000) (1 / 10)), Key_release (CHR ''v''),
      Sleep (Literal (5 / 1000)),
      Key_press (CHR ''2''), Key_release (CHR ''2''),
      Key_press (CHR ''1''), Sleep (Uniform (96 / 1000) (1 / 10)), Key_release (CHR ''1'')]"
proof -
  from mouse_on_click_returned [OF assms]
  have "s' = s\<lparr>performed := performed s @ replay_calls\<rparr>" ..
  then show ?thesis by (simp add: replay_calls_def)
qed

theorem replay_calls_in_order_witness:
  "performed (snd (mouse_on_click never_raises 3 4 Button_x2 True initial_state)) =
     [Key_press (CHR ''v''), Sleep (Uniform (96 / 1000) (1 / 10)), Key_release (CHR ''v''),
      Sleep (Literal (5 / 1000)),
      Key_press (CHR ''2''), Key_release (CHR ''2''),
      Key_press (CHR ''1''), Sleep (Uniform (96 / 1000) (1 / 10)), Key_release (CHR ''1'')]"
proof -
  have idle: "\<not> is_script_running initial_state"
    by (simp add: initial_state_def)
  have ev: "mouse_on_click never_raises 3 4 button_to_trigger True initial_state =
      (Returned PyNone, snd (mouse_on_click never_raises 3 4 button_to_trigger True initial_state))"
    using mouse_on_click_never_raises [OF idle, of 3 4] by simp
  from replay_calls_in_order [OF idle ev] show ?thesis
    by (simp add: initial_state_def button_to_trigger_def)
qed

end
